theory Spec2Isabelle
  imports Complex_Main "HOL-Library.AList"
begin

section \<open>Python values used by the control layer\<close>

text \<open>
  The control layer of the translation backend lives in two files:
  \<^verbatim>\<open>app/services/translation_service.py\<close> (the cache, the metrics and the
  orchestration in \<^verbatim>\<open>translate_text\<close>) and \<^verbatim>\<open>app/middleware/security.py\<close> (the
  sliding-window rate limiter).

  Conventions of the embedding:
  \<^item> a \<^verbatim>\<open>datetime\<close> is an integer number of microseconds (the resolution of the
    Python type), so that \<^verbatim>\<open>timedelta(seconds=n)\<close> is \<open>n * 1000000\<close>;
  \<^item> a reading of \<^verbatim>\<open>time.time()\<close> and every other Python float is a real number
    (exact arithmetic);
  \<^item> a Python \<^verbatim>\<open>str\<close> is a \<open>string\<close>, one \<open>char\<close> per code point below 256;
  \<^item> a \<^verbatim>\<open>dict\<close> is an association list in insertion order, updated in place by
    \<open>AList.update\<close> (a new key goes to the end, as in Python) and shrunk by
    \<open>AList.delete\<close>;
  \<^item> the clock is an argument of the operation that reads it: a cache operation and
    the rate limiter take one reading \<open>now\<close> (the two consecutive readings inside
    \<^verbatim>\<open>get\<close> are one instant), \<^verbatim>\<open>translate_text\<close> takes a record of its readings;
  \<^item> \<^verbatim>\<open>hashlib.md5(content.encode()).hexdigest()\<close> is library code: the digest
    function is the argument \<open>digest\<close> of every operation that derives a key;
  \<^item> an exception is a value of type \<open>error\<close>, returned next to the state the
    operation had reached when it was raised.
\<close>

datatype error =
    ValueError string
  | KeyError string
  | ZeroDivisionError
  | ModelError string

type_synonym datetime = int

definition timedelta_seconds :: "int \<Rightarrow> int" where
  "timedelta_seconds n = n * 1000000"

text \<open>\<^verbatim>\<open>str.isspace\<close> on the code points below 256, and \<^verbatim>\<open>str.strip()\<close>.\<close>

definition isspace :: "char \<Rightarrow> bool" where
  "isspace ch =
     (let n = (of_char ch :: nat)
      in (9 \<le> n \<and> n \<le> 13) \<or> (28 \<le> n \<and> n \<le> 32) \<or> n = 133 \<or> n = 160)"

definition strip :: "string \<Rightarrow> string" where
  "strip s = rev (dropWhile isspace (rev (dropWhile isspace s)))"

section \<open>The translation cache\<close>

text \<open>
  \<^verbatim>\<open>CacheEntry\<close> of \<^verbatim>\<open>app/models/translation.py\<close> and the fields of
  \<^verbatim>\<open>TranslationCache.__init__\<close>.
\<close>

record cache_entry =
  translatedText :: string
  timestamp :: datetime
  translator :: string
  confidence :: "real option"
  hitCount :: int

record translation_cache =
  max_size :: int
  ttl :: int
  cache :: "(string \<times> cache_entry) list"
  access_times :: "(string \<times> datetime) list"
  hit_count :: int
  miss_count :: int

definition new_cache :: "int \<Rightarrow> int \<Rightarrow> translation_cache" where
  "new_cache ms t =
     \<lparr>max_size = ms, ttl = t, cache = [], access_times = [], hit_count = 0, miss_count = 0\<rparr>"

text \<open>\<^verbatim>\<open>_generate_key\<close>: the digest of \<^verbatim>\<open>f"{text}|{source_lang}|{target_lang}"\<close>.\<close>

definition key_content :: "string \<Rightarrow> string \<Rightarrow> string \<Rightarrow> string" where
  "key_content text source_lang target_lang =
     text @ ''|'' @ source_lang @ ''|'' @ target_lang"

definition generate_key ::
  "(string \<Rightarrow> string) \<Rightarrow> string \<Rightarrow> string \<Rightarrow> string \<Rightarrow> string" where
  "generate_key digest text source_lang target_lang =
     digest (key_content text source_lang target_lang)"

text \<open>
  \<^verbatim>\<open>TranslationCache.get\<close>. The entry object stored in the dict is the one whose
  \<^verbatim>\<open>hitCount\<close> is incremented and that is returned, so the stored entry changes with
  it. On the expired branch \<^verbatim>\<open>del self.access_times[key]\<close> raises \<^verbatim>\<open>KeyError\<close> when the
  key has no access time; the entry has been deleted from \<^verbatim>\<open>self.cache\<close> by then.
  Entries are values here: \<^verbatim>\<open>translate_text\<close> builds a new \<^verbatim>\<open>CacheEntry\<close> for every
  \<^verbatim>\<open>set\<close>, so no entry object is stored under two keys.
\<close>

definition get ::
  "(string \<Rightarrow> string) \<Rightarrow> translation_cache \<Rightarrow> string \<Rightarrow> string \<Rightarrow> string \<Rightarrow> datetime
     \<Rightarrow> (error + cache_entry option) \<times> translation_cache" where
  "get digest c text source_lang target_lang now =
     (let key = generate_key digest text source_lang target_lang;
          missed = (\<lambda>c'. (Inr None, c'\<lparr>miss_count := miss_count c' + 1\<rparr>))
      in case map_of (cache c) key of
           Some entry \<Rightarrow>
             if now - timestamp entry < timedelta_seconds (ttl c) then
               (let entry' = entry\<lparr>hitCount := hitCount entry + 1\<rparr>
                in (Inr (Some entry'),
                    c\<lparr>access_times := AList.update key now (access_times c),
                      cache := AList.update key entry' (cache c),
                      hit_count := hit_count c + 1\<rparr>))
             else
               (let c1 = c\<lparr>cache := AList.delete key (cache c)\<rparr>
                in case map_of (access_times c1) key of
                     None \<Rightarrow> (Inl (KeyError key), c1)
                   | Some _ \<Rightarrow>
                       missed (c1\<lparr>access_times := AList.delete key (access_times c1)\<rparr>))
         | None \<Rightarrow> missed c)"

text \<open>
  \<^verbatim>\<open>_evict_lru\<close>: the loop over the first \<^verbatim>\<open>num_to_remove\<close> items of the access
  times, sorted by time (Python's \<^verbatim>\<open>sorted\<close> is stable, and so is \<open>sort_key\<close>).
\<close>

fun evict_loop :: "(string \<times> datetime) list \<Rightarrow> translation_cache \<Rightarrow> translation_cache" where
  "evict_loop [] c = c"
| "evict_loop ((key, _) # rest) c =
     evict_loop rest
       (c\<lparr>cache := AList.delete key (cache c),
          access_times := AList.delete key (access_times c)\<rparr>)"

definition evict_lru :: "translation_cache \<Rightarrow> translation_cache" where
  "evict_lru c =
     (if access_times c = [] then c
      else
        (let num_to_remove = max 1 (int (length (cache c)) div 5);
             sorted_keys = sort_key snd (access_times c)
         in evict_loop (take (nat num_to_remove) sorted_keys) c))"

text \<open>\<^verbatim>\<open>TranslationCache.set\<close>.\<close>

definition set_cache ::
  "(string \<Rightarrow> string) \<Rightarrow> translation_cache \<Rightarrow> string \<Rightarrow> string \<Rightarrow> string \<Rightarrow> cache_entry
     \<Rightarrow> datetime \<Rightarrow> translation_cache" where
  "set_cache digest c text source_lang target_lang entry now =
     (let key = generate_key digest text source_lang target_lang;
          c1 = (if int (length (cache c)) \<ge> max_size c then evict_lru c else c)
      in c1\<lparr>cache := AList.update key entry (cache c1),
            access_times := AList.update key now (access_times c1)\<rparr>)"

text \<open>
  \<^verbatim>\<open>get_stats\<close> and \<^verbatim>\<open>CacheStats\<close>. The field \<^verbatim>\<open>memoryUsage\<close> (the length of the
  printed dict) is left out.
\<close>

record cache_stats =
  totalEntries :: int
  hitRate :: real
  oldestEntry :: "datetime option"
  newestEntry :: "datetime option"

definition get_stats :: "translation_cache \<Rightarrow> cache_stats" where
  "get_stats c =
     (let total_requests = hit_count c + miss_count c;
          hit_rate = (if total_requests > 0
                      then real_of_int (hit_count c) / real_of_int total_requests * 100
                      else 0);
          timestamps = map (\<lambda>(_, entry). timestamp entry) (cache c)
      in \<lparr>totalEntries = int (length (cache c)),
          hitRate = hit_rate,
          oldestEntry = (if timestamps = [] then None else Some (Min (set timestamps))),
          newestEntry = (if timestamps = [] then None else Some (Max (set timestamps)))\<rparr>)"

text \<open>
  Two facts hold of every cache the program builds: both dicts have the same keys,
  and a dict has each key once.
\<close>

definition keys_agree :: "translation_cache \<Rightarrow> bool" where
  "keys_agree c = (fst ` set (cache c) = fst ` set (access_times c))"

definition dicts_ok :: "translation_cache \<Rightarrow> bool" where
  "dicts_ok c = (distinct (map fst (cache c)) \<and> distinct (map fst (access_times c)))"

text \<open>
  The keys that one eviction removes: those of the first \<open>max 1 (size div 5)\<close> items
  of the access times in the order of \<^verbatim>\<open>sorted\<close>.
\<close>

definition evicted :: "translation_cache \<Rightarrow> string set" where
  "evicted c =
     fst ` set (take (nat (max 1 (int (length (cache c)) div 5)))
                  (sort_key snd (access_times c)))"

text \<open>A cache of capacity at least one that holds no more entries than its capacity.\<close>

definition within_capacity :: "translation_cache \<Rightarrow> bool" where
  "within_capacity c =
     (keys_agree c \<and> dicts_ok c \<and> 1 \<le> max_size c \<and> int (length (cache c)) \<le> max_size c)"

text \<open>
  Sequences of cache operations: every state a cache can be in is the state after
  some list of operations, applied to a fresh cache.
\<close>

datatype cache_op =
    Get string string string datetime
  | Set string string string cache_entry datetime
  | Evict

fun apply_op :: "(string \<Rightarrow> string) \<Rightarrow> translation_cache \<Rightarrow> cache_op \<Rightarrow> translation_cache" where
  "apply_op digest c (Get text source_lang target_lang now) =
     snd (get digest c text source_lang target_lang now)"
| "apply_op digest c (Set text source_lang target_lang entry now) =
     set_cache digest c text source_lang target_lang entry now"
| "apply_op digest c Evict = evict_lru c"

definition run_ops ::
  "(string \<Rightarrow> string) \<Rightarrow> translation_cache \<Rightarrow> cache_op list \<Rightarrow> translation_cache" where
  "run_ops digest c ops = fold (\<lambda>op c'. apply_op digest c' op) ops c"

section \<open>The sliding-window rate limiter\<close>

text \<open>
  \<^verbatim>\<open>RateLimitMiddleware\<close>. \<^verbatim>\<open>client_requests\<close> is a \<^verbatim>\<open>defaultdict(deque)\<close>: reading a
  client that has no history yields an empty deque and stores it.
\<close>

record rate_limiter =
  calls_per_minute :: int
  window_size :: real
  client_requests :: "string \<rightharpoonup> real list"

definition new_rate_limiter :: "int \<Rightarrow> rate_limiter" where
  "new_rate_limiter n = \<lparr>calls_per_minute = n, window_size = 60, client_requests = Map.empty\<rparr>"

text \<open>\<^verbatim>\<open>while requests and requests[0] < window_start: requests.popleft()\<close>\<close>

fun prune :: "real \<Rightarrow> real list \<Rightarrow> real list" where
  "prune window_start [] = []"
| "prune window_start (r # requests) =
     (if r < window_start then prune window_start requests else r # requests)"

text \<open>\<^verbatim>\<open>self.client_requests[client_id]\<close>\<close>

definition requests_of :: "rate_limiter \<Rightarrow> string \<Rightarrow> real list" where
  "requests_of rl client_id =
     (case client_requests rl client_id of None \<Rightarrow> [] | Some q \<Rightarrow> q)"

text \<open>\<^verbatim>\<open>_is_rate_limited\<close>: \<open>True\<close> is a rejection.\<close>

definition is_rate_limited :: "rate_limiter \<Rightarrow> string \<Rightarrow> real \<Rightarrow> bool \<times> rate_limiter" where
  "is_rate_limited rl client_id now =
     (let window_start = now - window_size rl;
          requests = requests_of rl client_id;
          requests = prune window_start requests
      in if int (length requests) \<ge> calls_per_minute rl
         then (True, rl\<lparr>client_requests := (client_requests rl)(client_id \<mapsto> requests)\<rparr>)
         else (False,
               rl\<lparr>client_requests := (client_requests rl)(client_id \<mapsto> requests @ [now])\<rparr>))"


section \<open>Metrics\<close>

text \<open>
  \<^verbatim>\<open>PerformanceMetrics\<close>, without the fields \<^verbatim>\<open>translate_text\<close> never writes
  (\<^verbatim>\<open>modelUsage\<close>, \<^verbatim>\<open>memoryUsage\<close>, \<^verbatim>\<open>lastUpdated\<close>).
\<close>

record performance_metrics =
  totalRequests :: int
  successfulTranslations :: int
  failedTranslations :: int
  averageResponseTime :: real
  cacheHitRate :: real

definition new_metrics :: performance_metrics where
  "new_metrics = \<lparr>totalRequests = 0, successfulTranslations = 0, failedTranslations = 0,
                   averageResponseTime = 0, cacheHitRate = 0\<rparr>"

text \<open>
  \<^verbatim>\<open>_update_average_response_time\<close>. The division raises \<^verbatim>\<open>ZeroDivisionError\<close> when the
  count is zero.
\<close>

definition update_average_response_time ::
  "performance_metrics \<Rightarrow> real \<Rightarrow> error + performance_metrics" where
  "update_average_response_time m response_time =
     (let total_successful = successfulTranslations m
      in if total_successful = 1 then Inr (m\<lparr>averageResponseTime := response_time\<rparr>)
         else if total_successful = 0 then Inl ZeroDivisionError
         else Inr (m\<lparr>averageResponseTime :=
                (averageResponseTime m * real_of_int (total_successful - 1) + response_time)
                  / real_of_int total_successful\<rparr>))"

text \<open>
  The three lines ``Update metrics'' of \<^verbatim>\<open>translate_text\<close>: both counters are
  incremented, then the average is updated.
\<close>

definition count_success :: "performance_metrics \<Rightarrow> performance_metrics" where
  "count_success m =
     m\<lparr>totalRequests := totalRequests m + 1,
       successfulTranslations := successfulTranslations m + 1\<rparr>"

definition record_success :: "performance_metrics \<Rightarrow> real \<Rightarrow> error + performance_metrics" where
  "record_success m processing_time =
     update_average_response_time (count_success m) processing_time"

fun record_all :: "performance_metrics \<Rightarrow> real list \<Rightarrow> error + performance_metrics" where
  "record_all m [] = Inr m"
| "record_all m (latency # later) =
     (case record_success m latency of
        Inl e \<Rightarrow> Inl e
      | Inr m' \<Rightarrow> record_all m' later)"

text \<open>The two increments of the \<^verbatim>\<open>except\<close> handler of \<^verbatim>\<open>translate_text\<close>.\<close>

definition record_failure :: "performance_metrics \<Rightarrow> performance_metrics" where
  "record_failure m =
     m\<lparr>totalRequests := totalRequests m + 1,
       failedTranslations := failedTranslations m + 1\<rparr>"

section \<open>Language codes\<close>

text \<open>\<^verbatim>\<open>NLLB_LANGUAGE_MAPPING\<close> of \<^verbatim>\<open>app/core/config.py\<close>, in the order of the source.\<close>

definition NLLB_LANGUAGE_MAPPING :: "(string \<times> string) list" where
  "NLLB_LANGUAGE_MAPPING =
     [
      (''en'', ''eng_Latn''), (''es'', ''spa_Latn''), (''fr'', ''fra_Latn''), (''de'', ''deu_Latn''),
      (''it'', ''ita_Latn''), (''pt'', ''por_Latn''), (''ru'', ''rus_Cyrl''), (''zh'', ''zho_Hans''),
      (''zh-TW'', ''zho_Hant''), (''ja'', ''jpn_Jpan''), (''ko'', ''kor_Hang''), (''ar'', ''arb_Arab''),
      (''hi'', ''hin_Deva''), (''th'', ''tha_Thai''), (''vi'', ''vie_Latn''), (''tr'', ''tur_Latn''),
      (''pl'', ''pol_Latn''), (''nl'', ''nld_Latn''), (''sv'', ''swe_Latn''), (''da'', ''dan_Latn''),
      (''no'', ''nob_Latn''), (''fi'', ''fin_Latn''), (''he'', ''heb_Hebr''), (''cs'', ''ces_Latn''),
      (''hu'', ''hun_Latn''), (''ro'', ''ron_Latn''), (''bg'', ''bul_Cyrl''), (''hr'', ''hrv_Latn''),
      (''sk'', ''slk_Latn''), (''sl'', ''slv_Latn''), (''et'', ''est_Latn''), (''lv'', ''lav_Latn''),
      (''lt'', ''lit_Latn''), (''uk'', ''ukr_Cyrl''), (''be'', ''bel_Cyrl''), (''mk'', ''mkd_Cyrl''),
      (''sr'', ''srp_Cyrl''), (''bs'', ''bos_Latn''), (''mt'', ''mlt_Latn''), (''is'', ''isl_Latn''),
      (''ga'', ''gle_Latn''), (''cy'', ''cym_Latn''), (''eu'', ''eus_Latn''), (''ca'', ''cat_Latn''),
      (''gl'', ''glg_Latn''), (''fa'', ''pes_Arab''), (''ur'', ''urd_Arab''), (''bn'', ''ben_Beng''),
      (''ta'', ''tam_Taml''), (''te'', ''tel_Telu''), (''ml'', ''mal_Mlym''), (''kn'', ''kan_Knda''),
      (''gu'', ''guj_Gujr''), (''pa'', ''pan_Guru''), (''mr'', ''mar_Deva''), (''ne'', ''npi_Deva''),
      (''si'', ''sin_Sinh''), (''my'', ''mya_Mymr''), (''km'', ''khm_Khmr''), (''lo'', ''lao_Laoo''),
      (''ka'', ''kat_Geor''), (''hy'', ''hye_Armn''), (''az'', ''azj_Latn''), (''kk'', ''kaz_Cyrl''),
      (''ky'', ''kir_Cyrl''), (''uz'', ''uzn_Latn''), (''tg'', ''tgk_Cyrl''), (''mn'', ''khk_Cyrl''),
      (''id'', ''ind_Latn''), (''ms'', ''zsm_Latn''), (''tl'', ''tgl_Latn''), (''sw'', ''swh_Latn''),
      (''am'', ''amh_Ethi''), (''ha'', ''hau_Latn''), (''yo'', ''yor_Latn''), (''ig'', ''ibo_Latn''),
      (''zu'', ''zul_Latn''), (''af'', ''afr_Latn''), (''xh'', ''xho_Latn''), (''st'', ''sot_Latn''),
      (''tn'', ''tsn_Latn''), (''ss'', ''ssw_Latn''), (''ve'', ''ven_Latn''), (''ts'', ''tso_Latn''),
      (''nr'', ''nbl_Latn'')
     ]"

definition get_nllb_language_code :: "string \<Rightarrow> string" where
  "get_nllb_language_code iso_code =
     (case map_of NLLB_LANGUAGE_MAPPING iso_code of Some v \<Rightarrow> v | None \<Rightarrow> iso_code)"

text \<open>
  The reversed dict is built by a comprehension, where a later item overwrites an
  earlier one with the same key: the lookup goes through the items from the last.
\<close>

definition get_iso_language_code :: "string \<Rightarrow> string" where
  "get_iso_language_code nllb_code =
     (case map_of (rev (map (\<lambda>(k, v). (v, k)) NLLB_LANGUAGE_MAPPING)) nllb_code of
        Some k \<Rightarrow> k
      | None \<Rightarrow> nllb_code)"

section \<open>The translation service\<close>

text \<open>
  \<^verbatim>\<open>TranslationResult\<close>; three field names carry the suffix \<open>_res\<close>, since
  \<^verbatim>\<open>CacheEntry\<close> has fields of the same names.
\<close>

record translation_result =
  translatedText_res :: string
  originalText :: string
  sourceLanguage :: string
  targetLanguage :: string
  translator_res :: string
  cached :: "bool option"
  processingTime :: "real option"
  confidence_res :: "real option"

text \<open>
  The state of a \<^verbatim>\<open>TranslationService\<close> that \<^verbatim>\<open>translate_text\<close> reads and writes:
  the setting \<^verbatim>\<open>ENABLE_CACHING\<close>, the cache (\<^verbatim>\<open>None\<close> when the service was built with
  caching off) and the metrics. \<open>model_calls\<close> is not a field of the program: it
  logs the arguments of every call of \<^verbatim>\<open>_perform_translation\<close>, so that theorems can
  count the calls of the model.
\<close>

record service =
  ENABLE_CACHING :: bool
  service_cache :: "translation_cache option"
  metrics :: performance_metrics
  model_calls :: "(string \<times> string \<times> string) list"

definition new_service :: "bool \<Rightarrow> int \<Rightarrow> int \<Rightarrow> service" where
  "new_service enable_caching cache_max_size cache_ttl =
     \<lparr>ENABLE_CACHING = enable_caching,
      service_cache =
        (if enable_caching then Some (new_cache cache_max_size cache_ttl) else None),
      metrics = new_metrics,
      model_calls = []\<rparr>"

text \<open>
  The clock readings of one call of \<^verbatim>\<open>translate_text\<close>: \<^verbatim>\<open>time.time()\<close> on entry
  and when \<^verbatim>\<open>processing_time\<close> is computed, \<^verbatim>\<open>datetime.utcnow()\<close> inside
  \<^verbatim>\<open>cache.get\<close>, for the timestamp of a new \<^verbatim>\<open>CacheEntry\<close>, and inside \<^verbatim>\<open>cache.set\<close>.
\<close>

record clock =
  start_time :: real
  finish_time :: real
  utcnow_get :: datetime
  utcnow_entry :: datetime
  utcnow_set :: datetime

text \<open>\<^verbatim>\<open>_detect_language\<close> returns English for every text.\<close>

definition detect_language :: "string \<Rightarrow> string" where
  "detect_language text = ''eng_Latn''"

text \<open>
  Lines 272 to 277: the pair \<^verbatim>\<open>(source_nllb, source_language)\<close> after the
  conversion and the detection. \<^verbatim>\<open>None\<close> and the empty string are both false in
  Python.
\<close>

definition detected_source :: "string \<Rightarrow> string \<times> string" where
  "detected_source text =
     (let source_nllb = detect_language text
      in (source_nllb, get_iso_language_code source_nllb))"

definition resolve_source :: "string \<Rightarrow> string option \<Rightarrow> string \<times> string" where
  "resolve_source text source_language =
     (case source_language of
        None \<Rightarrow> detected_source text
      | Some sl \<Rightarrow>
          if sl \<noteq> [] \<and> get_nllb_language_code sl \<noteq> []
          then (get_nllb_language_code sl, sl)
          else detected_source text)"

text \<open>
  \<^verbatim>\<open>_perform_translation\<close>: tokenizer, model and decoder are the argument \<open>model\<close>,
  which yields the decoded text or the exception it raised; the decoded text is
  stripped, an exception is logged and raised again.
\<close>

definition perform_translation ::
  "(string \<Rightarrow> string \<Rightarrow> string \<Rightarrow> error + string) \<Rightarrow> string \<Rightarrow> string \<Rightarrow> string
     \<Rightarrow> error + string" where
  "perform_translation model text source_lang target_lang =
     (case model text source_lang target_lang of
        Inl e \<Rightarrow> Inl e
      | Inr translated_text \<Rightarrow> Inr (strip translated_text))"

text \<open>\<^verbatim>\<open>if self.cache and self.settings.ENABLE_CACHING: cached_result = self.cache.get(...)\<close>\<close>

definition cache_lookup ::
  "(string \<Rightarrow> string) \<Rightarrow> clock \<Rightarrow> service \<Rightarrow> string \<Rightarrow> string \<Rightarrow> string
     \<Rightarrow> (error + cache_entry option) \<times> service" where
  "cache_lookup digest clk s text source_language target_language =
     (case service_cache s of
        None \<Rightarrow> (Inr None, s)
      | Some c \<Rightarrow>
          if ENABLE_CACHING s then
            (case get digest c text source_language target_language (utcnow_get clk) of
               (r, c') \<Rightarrow> (r, s\<lparr>service_cache := Some c'\<rparr>))
          else (Inr None, s))"

text \<open>\<^verbatim>\<open>if self.cache: self.cache.set(text, source_language, target_language, CacheEntry(...))\<close>\<close>

definition cache_store ::
  "(string \<Rightarrow> string) \<Rightarrow> clock \<Rightarrow> service \<Rightarrow> string \<Rightarrow> string \<Rightarrow> string \<Rightarrow> string \<Rightarrow> real
     \<Rightarrow> service" where
  "cache_store digest clk s text source_language target_language translated conf =
     (case service_cache s of
        None \<Rightarrow> s
      | Some c \<Rightarrow>
          s\<lparr>service_cache := Some
              (set_cache digest c text source_language target_language
                 \<lparr>translatedText = translated, timestamp = utcnow_entry clk,
                  translator = ''nllb-200'', confidence = Some conf, hitCount = 1\<rparr>
                 (utcnow_set clk))\<rparr>)"

text \<open>
  The body of the \<^verbatim>\<open>try\<close> block of \<^verbatim>\<open>translate_text\<close>: the result or the exception
  raised, and the state reached.
\<close>

definition translate_body ::
  "(string \<Rightarrow> string) \<Rightarrow> (string \<Rightarrow> string \<Rightarrow> string \<Rightarrow> error + string) \<Rightarrow> clock \<Rightarrow> service
     \<Rightarrow> string \<Rightarrow> string \<Rightarrow> string option \<Rightarrow> (error + translation_result) \<times> service" where
  "translate_body digest model clk s text target_language source_language =
     (if text = [] \<or> strip text = [] then (Inl (ValueError ''Text cannot be empty''), s)
      else
        (let text = strip text;
             target_nllb = get_nllb_language_code target_language;
             (source_nllb, source_language) = resolve_source text source_language;
             processing_time = finish_time clk - start_time clk
         in case cache_lookup digest clk s text source_language target_language of
              (Inl e, s1) \<Rightarrow> (Inl e, s1)
            | (Inr (Some cached_result), s1) \<Rightarrow>
                (Inr \<lparr>translatedText_res = translatedText cached_result,
                      originalText = text,
                      sourceLanguage = source_language,
                      targetLanguage = target_language,
                      translator_res = ''nllb-200'',
                      cached = Some True,
                      processingTime = Some processing_time,
                      confidence_res = confidence cached_result\<rparr>, s1)
            | (Inr None, s1) \<Rightarrow>
                if source_language = target_language then
                  (Inr \<lparr>translatedText_res = text,
                        originalText = text,
                        sourceLanguage = source_language,
                        targetLanguage = target_language,
                        translator_res = ''nllb-200'',
                        cached = Some False,
                        processingTime = Some processing_time,
                        confidence_res = Some 1\<rparr>,
                   cache_store digest clk s1 text source_language target_language text 1)
                else
                  (let s2 = s1\<lparr>model_calls :=
                              model_calls s1 @ [(text, source_nllb, target_nllb)]\<rparr>
                   in case perform_translation model text source_nllb target_nllb of
                        Inl e \<Rightarrow> (Inl e, s2)
                      | Inr translated_text \<Rightarrow>
                          (let s3 = cache_store digest clk s2 text source_language
                                      target_language translated_text 0.95;
                               m = count_success (metrics s3)
                           in case update_average_response_time m processing_time of
                                Inl e \<Rightarrow> (Inl e, s3\<lparr>metrics := m\<rparr>)
                              | Inr m' \<Rightarrow>
                                  (Inr \<lparr>translatedText_res = translated_text,
                                        originalText = text,
                                        sourceLanguage = source_language,
                                        targetLanguage = target_language,
                                        translator_res = ''nllb-200'',
                                        cached = Some False,
                                        processingTime = Some processing_time,
                                        confidence_res = Some 0.95\<rparr>,
                                   s3\<lparr>metrics := m'\<rparr>)))))"

text \<open>
  \<^verbatim>\<open>translate_text\<close>: the \<^verbatim>\<open>except Exception\<close> handler counts a failed request and
  raises the exception again.
\<close>

definition translate_text ::
  "(string \<Rightarrow> string) \<Rightarrow> (string \<Rightarrow> string \<Rightarrow> string \<Rightarrow> error + string) \<Rightarrow> clock \<Rightarrow> service
     \<Rightarrow> string \<Rightarrow> string \<Rightarrow> string option \<Rightarrow> (error + translation_result) \<times> service" where
  "translate_text digest model clk s text target_language source_language =
     (case translate_body digest model clk s text target_language source_language of
        (Inl e, s') \<Rightarrow> (Inl e, s'\<lparr>metrics := record_failure (metrics s')\<rparr>)
      | (Inr result, s') \<Rightarrow> (Inr result, s'))"

text \<open>The entries a service holds in its cache; none when it has no cache.\<close>

definition cached_entries :: "service \<Rightarrow> (string \<times> cache_entry) set" where
  "cached_entries s = (case service_cache s of None \<Rightarrow> {} | Some c \<Rightarrow> set (cache c))"

section \<open>Sample states\<close>

text \<open>
  Concrete states and inputs at which the theorems below are instantiated. The sample
  digest is the identity: it keeps distinct contents apart, as MD5 does on the
  samples.
\<close>

definition sample_entry :: cache_entry where
  "sample_entry = \<lparr>translatedText = ''hola'', timestamp = 0, translator = ''nllb-200'',
             confidence = Some 0.95, hitCount = 1\<rparr>"

definition sample_cache :: translation_cache where
  "sample_cache = set_cache (\<lambda>s. s) (new_cache 2 10) ''hello'' ''en'' ''es'' sample_entry 0"

definition sample_ops :: "cache_op list" where
  "sample_ops =
     [Get ''hello'' ''en'' ''es'' 0,
      Set ''hello'' ''en'' ''es'' sample_entry 1,
      Get ''hello'' ''en'' ''es'' 2]"


definition sample_full :: translation_cache where
  "sample_full =
     \<lparr>max_size = 2, ttl = 10,
      cache = [(''a|en|es'', sample_entry), (''b|en|es'', sample_entry)],
      access_times = [(''a|en|es'', 5), (''b|en|es'', 3)],
      hit_count = 0, miss_count = 0\<rparr>"

definition sample_sets :: "cache_op list" where
  "sample_sets =
     [Set ''a'' ''en'' ''es'' sample_entry 3,
      Set ''b'' ''en'' ''es'' sample_entry 4,
      Set ''c'' ''en'' ''es'' sample_entry 5]"

definition sample_clock :: clock where
  "sample_clock = \<lparr>start_time = 100, finish_time = 102, utcnow_get = 1000000,
                     utcnow_entry = 2000000, utcnow_set = 3000000\<rparr>"

definition sample_model :: "string \<Rightarrow> string \<Rightarrow> string \<Rightarrow> error + string" where
  "sample_model text source_lang target_lang = Inr '' Hola ''"

definition failing_model :: "string \<Rightarrow> string \<Rightarrow> string \<Rightarrow> error + string" where
  "failing_model text source_lang target_lang = Inl (ModelError ''out of memory'')"

definition sample_service :: service where
  "sample_service = new_service True 2 3600"


section \<open>Key sets of the two dicts\<close>

lemma keys_delete: "fst ` set (AList.delete k al) = fst ` set al - {k}"
  by (induction al) (auto simp: AList.delete_eq)

lemma evict_loop_keys:
  "fst ` set (cache (evict_loop ks c)) = fst ` set (cache c) - fst ` set ks \<and>
   fst ` set (access_times (evict_loop ks c)) = fst ` set (access_times c) - fst ` set ks"
proof (induction ks c rule: evict_loop.induct)
  case (1 c)
  show ?case by simp
next
  case (2 key uu rest c)
  then show ?case by (auto simp: keys_delete)
qed

lemma evict_loop_params:
  "max_size (evict_loop ks c) = max_size c \<and> ttl (evict_loop ks c) = ttl c \<and>
   hit_count (evict_loop ks c) = hit_count c \<and> miss_count (evict_loop ks c) = miss_count c"
  by (induction ks c rule: evict_loop.induct) auto

lemma keys_agree_evict_lru: "keys_agree c \<Longrightarrow> keys_agree (evict_lru c)"
  by (simp add: keys_agree_def evict_lru_def Let_def evict_loop_keys)

lemma keys_agree_set_cache:
  "keys_agree c \<Longrightarrow> keys_agree (set_cache digest c text s t entry now)"
  using keys_agree_evict_lru [of c]
  by (simp add: keys_agree_def set_cache_def Let_def AList.dom_update)

lemma map_of_keys: "(map_of al k = None) = (k \<notin> fst ` set al)"
  by (simp add: map_of_eq_None_iff)

lemma keys_agree_get:
  "keys_agree c \<Longrightarrow> keys_agree (snd (get digest c text s t now))"
  by (auto simp: keys_agree_def get_def Let_def AList.dom_update keys_delete map_of_keys
      split: option.splits dest: map_of_SomeD)

lemma keys_agree_new_cache: "keys_agree (new_cache ms t)"
  by (simp add: keys_agree_def new_cache_def)

lemma keys_agree_apply_op: "keys_agree c \<Longrightarrow> keys_agree (apply_op digest c op)"
  by (cases op) (simp_all add: keys_agree_get keys_agree_set_cache keys_agree_evict_lru)

lemma keys_agree_run_ops: "keys_agree c \<Longrightarrow> keys_agree (run_ops digest c ops)"
  unfolding run_ops_def
  by (induction ops arbitrary: c) (simp_all add: keys_agree_apply_op)

text \<open>
  C10. After every cache operation (\<open>get\<close>, \<open>set\<close>, eviction) the entry dict and the
  access-time dict have the same key set: each operation keeps the agreement, and the
  fresh cache has it, so every cache reached by any sequence of operations has it.
\<close>

theorem cache_dicts_share_keys:
  "(keys_agree c \<longrightarrow>
      keys_agree (snd (get digest c tx s t now)) \<and>
      keys_agree (set_cache digest c tx' s' t' entry now') \<and>
      keys_agree (evict_lru c)) \<and>
   keys_agree (run_ops digest (new_cache ms tt) ops)"
  by (simp add: keys_agree_get keys_agree_set_cache keys_agree_evict_lru
      keys_agree_run_ops keys_agree_new_cache)

theorem cache_dicts_share_keys_witness:
  "keys_agree sample_cache \<and>
   keys_agree (snd (get (\<lambda>s. s) sample_cache ''hello'' ''en'' ''es'' 10000000)) \<and>
   keys_agree (set_cache (\<lambda>s. s) sample_cache ''bye'' ''en'' ''es'' sample_entry 7) \<and>
   keys_agree (evict_lru sample_cache)"
proof -
  have h: "keys_agree sample_cache"
    by (simp add: keys_agree_def sample_cache_def set_cache_def new_cache_def Let_def)
  with cache_dicts_share_keys [where c = sample_cache and digest = "\<lambda>s. s" and tx = "''hello''"
      and s = "''en''" and t = "''es''" and now = 10000000 and tx' = "''bye''"
      and s' = "''en''" and t' = "''es''" and entry = sample_entry and now' = 7]
  show ?thesis by simp
qed

section \<open>Lookup\<close>

lemma evict_loop_distinct:
  "dicts_ok c \<Longrightarrow> dicts_ok (evict_loop ks c)"
  by (induction ks c rule: evict_loop.induct) (auto simp: dicts_ok_def AList.distinct_delete)

lemma dicts_ok_evict_lru: "dicts_ok c \<Longrightarrow> dicts_ok (evict_lru c)"
  by (simp add: evict_lru_def Let_def evict_loop_distinct)

lemma dicts_ok_set_cache: "dicts_ok c \<Longrightarrow> dicts_ok (set_cache digest c tx s t entry now)"
  using dicts_ok_evict_lru [of c]
  by (simp add: dicts_ok_def set_cache_def Let_def AList.distinct_update)

lemma dicts_ok_get: "dicts_ok c \<Longrightarrow> dicts_ok (snd (get digest c tx s t now))"
  by (auto simp: dicts_ok_def get_def Let_def AList.distinct_update AList.distinct_delete
      split: option.splits)





lemma dicts_ok_run_ops: "dicts_ok c \<Longrightarrow> dicts_ok (run_ops digest c ops)"
  unfolding run_ops_def
proof (induction ops arbitrary: c)
  case Nil
  then show ?case by simp
next
  case (Cons op ops)
  have "dicts_ok (apply_op digest c op)"
    using Cons.prems by (cases op) (simp_all add: dicts_ok_get dicts_ok_set_cache dicts_ok_evict_lru)
  with Cons.IH show ?case by simp
qed

lemma reachable_cache_consistent:
  "keys_agree (run_ops digest (new_cache ms tt) ops) \<and>
   dicts_ok (run_ops digest (new_cache ms tt) ops)"
proof -
  have "dicts_ok (new_cache ms tt)" by (simp add: dicts_ok_def new_cache_def)
  then have "dicts_ok (run_ops digest (new_cache ms tt) ops)" by (rule dicts_ok_run_ops)
  moreover have "keys_agree (run_ops digest (new_cache ms tt) ops)"
    by (rule keys_agree_run_ops) (rule keys_agree_new_cache)
  ultimately show ?thesis by simp
qed




section \<open>Cache statistics\<close>

lemma run_sample_ops:
  "run_ops (\<lambda>s. s) (new_cache 2 10) sample_ops =
     \<lparr>max_size = 2, ttl = 10,
      cache = [(''hello|en|es'', sample_entry\<lparr>hitCount := 2\<rparr>)],
      access_times = [(''hello|en|es'', 2)], hit_count = 1, miss_count = 1\<rparr>"
  by (simp add: run_ops_def sample_ops_def new_cache_def get_def set_cache_def Let_def
      generate_key_def key_content_def sample_entry_def timedelta_seconds_def)

text \<open>
  C8, as the code has it. \<open>get_stats\<close> reports the hit rate as a percentage:
  \<open>hitRate = hits / (hits + misses) * 100\<close>, where \<open>hits\<close> and \<open>misses\<close> are the
  counters kept by \<open>get\<close>, and \<open>0\<close> when \<open>hits + misses\<close> is not positive.
\<close>

theorem hit_rate_is_percentage:
  "hitRate (get_stats c) =
     (if hit_count c + miss_count c > 0
      then real_of_int (hit_count c) / real_of_int (hit_count c + miss_count c) * 100
      else 0)"
  by (simp add: get_stats_def Let_def)

text \<open>
  The claim without the factor fails: after one miss and one hit the rate reported
  is \<open>50\<close>, not \<open>1 / 2\<close>.
\<close>

theorem hit_rate_not_a_fraction:
  "hit_count (run_ops (\<lambda>s. s) (new_cache 2 10) sample_ops) = 1 \<and>
   miss_count (run_ops (\<lambda>s. s) (new_cache 2 10) sample_ops) = 1 \<and>
   hitRate (get_stats (run_ops (\<lambda>s. s) (new_cache 2 10) sample_ops)) = 50 \<and>
   hitRate (get_stats (run_ops (\<lambda>s. s) (new_cache 2 10) sample_ops)) \<noteq>
     real_of_int (hit_count (run_ops (\<lambda>s. s) (new_cache 2 10) sample_ops)) /
     real_of_int (hit_count (run_ops (\<lambda>s. s) (new_cache 2 10) sample_ops) +
                  miss_count (run_ops (\<lambda>s. s) (new_cache 2 10) sample_ops))"
  by (simp add: run_sample_ops get_stats_def Let_def)

section \<open>The running mean of the response times\<close>

lemma record_success_step:
  assumes "0 \<le> successfulTranslations m"
  shows "\<exists>m'. record_success m l = Inr m' \<and>
     successfulTranslations m' = successfulTranslations m + 1 \<and>
     totalRequests m' = totalRequests m + 1 \<and>
     failedTranslations m' = failedTranslations m \<and>
     averageResponseTime m' =
       (averageResponseTime m * real_of_int (successfulTranslations m) + l)
         / real_of_int (successfulTranslations m + 1)"
  using assms
  by (auto simp: record_success_def update_average_response_time_def count_success_def Let_def)

lemma record_all_sum:
  assumes "successfulTranslations m = int k"
    and "averageResponseTime m * real k = S"
  shows "\<exists>m'. record_all m ls = Inr m' \<and>
     successfulTranslations m' = int (k + length ls) \<and>
     averageResponseTime m' * real (k + length ls) = S + sum_list ls \<and>
     (ls = [] \<longrightarrow> m' = m)"
  using assms
proof (induction ls arbitrary: m k S)
  case Nil
  then show ?case by simp
next
  case (Cons l ls)
  from Cons.prems(1) have "0 \<le> successfulTranslations m" by simp
  from record_success_step [OF this, of l] obtain m1 where
    m1: "record_success m l = Inr m1"
    "successfulTranslations m1 = successfulTranslations m + 1"
    "averageResponseTime m1 =
       (averageResponseTime m * real_of_int (successfulTranslations m) + l)
         / real_of_int (successfulTranslations m + 1)"
    by blast
  have s1: "successfulTranslations m1 = int (Suc k)"
    using m1(2) Cons.prems(1) by simp
  have a1: "averageResponseTime m1 * real (Suc k) = S + l"
    using m1(3) Cons.prems by (simp add: field_simps)
  from Cons.IH [OF s1 a1] obtain m' where
    "record_all m1 ls = Inr m'" "successfulTranslations m' = int (Suc k + length ls)"
    "averageResponseTime m' * real (Suc k + length ls) = S + l + sum_list ls"
    by blast
  with m1(1) show ?case by (simp add: add.assoc)
qed

text \<open>
  C5. Starting with no success counted, recording the latencies \<open>l1 .. ln\<close> (\<open>n \<ge> 1\<close>)
  raises no exception and leaves \<open>averageResponseTime = (l1 + ... + ln) / n\<close>, in
  exact arithmetic; and one recorded success changes the mean to
  \<open>mean + (latency - mean) / successCount\<close>, with the count after the increment.
\<close>

theorem running_mean_is_average:
  "(successfulTranslations m = 0 \<and> ls \<noteq> [] \<longrightarrow>
      (\<exists>m'. record_all m ls = Inr m' \<and>
            successfulTranslations m' = int (length ls) \<and>
            averageResponseTime m' = sum_list ls / real (length ls))) \<and>
   (0 \<le> successfulTranslations m \<longrightarrow>
      (\<exists>m'. record_success m latency = Inr m' \<and>
            successfulTranslations m' = successfulTranslations m + 1 \<and>
            averageResponseTime m' =
              averageResponseTime m +
                (latency - averageResponseTime m) / real_of_int (successfulTranslations m')))"
proof (intro conjI impI)
  assume h: "successfulTranslations m = 0 \<and> ls \<noteq> []"
  then have "successfulTranslations m = int 0" "averageResponseTime m * real 0 = 0" by simp_all
  from record_all_sum [OF this, of ls] obtain m' where
    m': "record_all m ls = Inr m'" "successfulTranslations m' = int (length ls)"
    "averageResponseTime m' * real (length ls) = sum_list ls"
    by auto
  from h have "real (length ls) \<noteq> 0" by simp
  with m'(3) have "averageResponseTime m' = sum_list ls / real (length ls)"
    by (simp add: field_simps)
  with m'(1,2) show "\<exists>m'. record_all m ls = Inr m' \<and>
            successfulTranslations m' = int (length ls) \<and>
            averageResponseTime m' = sum_list ls / real (length ls)" by blast
next
  assume h: "0 \<le> successfulTranslations m"
  from record_success_step [OF h, of latency] obtain m' where
    m': "record_success m latency = Inr m'"
    "successfulTranslations m' = successfulTranslations m + 1"
    "averageResponseTime m' =
       (averageResponseTime m * real_of_int (successfulTranslations m) + latency)
         / real_of_int (successfulTranslations m + 1)"
    by blast
  from h have nz: "real_of_int (successfulTranslations m + 1) \<noteq> 0" by linarith
  have "averageResponseTime m' =
      averageResponseTime m +
        (latency - averageResponseTime m) / real_of_int (successfulTranslations m')"
    using nz h unfolding m'(2,3) by (simp add: field_simps)
  with m'(1,2) show "\<exists>m'. record_success m latency = Inr m' \<and>
            successfulTranslations m' = successfulTranslations m + 1 \<and>
            averageResponseTime m' =
              averageResponseTime m +
                (latency - averageResponseTime m) / real_of_int (successfulTranslations m')"
    by blast
qed

theorem running_mean_is_average_witness:
  "successfulTranslations new_metrics = 0 \<and> [2, 4, 9 :: real] \<noteq> [] \<and>
   (\<exists>m'. record_all new_metrics [2, 4, 9] = Inr m' \<and> averageResponseTime m' = 5) \<and>
   (\<exists>m'. record_success new_metrics 2 = Inr m' \<and> averageResponseTime m' = 2)"
proof -
  have h: "successfulTranslations new_metrics = 0" by (simp add: new_metrics_def)
  have a: "averageResponseTime new_metrics = 0" by (simp add: new_metrics_def)
  from running_mean_is_average [of new_metrics "[2, 4, 9]" 2] h a show ?thesis
    by auto
qed

section \<open>Admission by the sliding window\<close>

lemma prune_sorted:
  "sorted rs \<Longrightarrow> prune ws rs = filter (\<lambda>t. ws \<le> t) rs"
proof (induction rs)
  case Nil
  then show ?case by simp
next
  case (Cons r rs)
  show ?case
  proof (cases "r < ws")
    case True
    with Cons show ?thesis by simp
  next
    case False
    with Cons.prems have "\<forall>t\<in>set rs. ws \<le> t" by auto
    then have "filter (\<lambda>t. ws \<le> t) rs = rs" by (simp add: filter_id_conv)
    with False show ?thesis by simp
  qed
qed




lemma requests_of_update [simp]:
  "requests_of (rl\<lparr>client_requests := (client_requests rl)(cid \<mapsto> q)\<rparr>) cid = q"
  by (simp add: requests_of_def)





lemma requests_of_new [simp]: "requests_of (new_rate_limiter n) cid = []"
  by (simp add: requests_of_def new_rate_limiter_def)





lemma is_rate_limited_keeps_order:
  assumes "sorted (requests_of rl cid)" and "\<forall>t\<in>set (requests_of rl cid). t \<le> now"
  shows "sorted (requests_of (snd (is_rate_limited rl cid now)) cid) \<and>
         (\<forall>t\<in>set (requests_of (snd (is_rate_limited rl cid now)) cid). t \<le> now)"
proof -
  have "sorted (map (\<lambda>t. t) (filter (\<lambda>t. now - window_size rl \<le> t) (requests_of rl cid)))"
    using assms(1) by (intro sorted_filter) simp
  then have "sorted (filter (\<lambda>t. now - window_size rl \<le> t) (requests_of rl cid))" by simp
  with assms show ?thesis
    by (auto simp: is_rate_limited_def Let_def prune_sorted sorted_append)
qed



section \<open>Eviction and the capacity bound\<close>

lemma delete_filter: "AList.delete k al = filter (\<lambda>p. fst p \<noteq> k) al"
  by (induction al) (auto simp: AList.delete_eq)

lemma evict_loop_filter:
  "cache (evict_loop ks c) = filter (\<lambda>p. fst p \<notin> fst ` set ks) (cache c) \<and>
   access_times (evict_loop ks c) = filter (\<lambda>p. fst p \<notin> fst ` set ks) (access_times c)"
proof (induction ks c rule: evict_loop.induct)
  case (1 c)
  show ?case by simp
next
  case (2 key uu rest c)
  then show ?case by (auto simp: delete_filter intro: filter_cong)
qed

lemma length_filter_keys:
  assumes "distinct (map fst xs)" and "R \<subseteq> fst ` set xs"
  shows "length (filter (\<lambda>p. fst p \<notin> R) xs) + card R = length xs"
proof -
  have d: "distinct (map fst (filter (\<lambda>p. fst p \<in> R) xs))"
    using assms(1) by (simp add: distinct_map_filter)
  have "set (map fst (filter (\<lambda>p. fst p \<in> R) xs)) = R"
    using assms(2) by auto
  with d have "length (filter (\<lambda>p. fst p \<in> R) xs) = card R"
    by (metis distinct_card length_map)
  moreover have "length (filter (\<lambda>p. fst p \<in> R) xs) + length (filter (\<lambda>p. fst p \<notin> R) xs) = length xs"
    using sum_length_filter_compl [of "\<lambda>p. fst p \<in> R" xs] by simp
  ultimately show ?thesis by simp
qed

lemma same_keys_same_length:
  assumes "keys_agree c" and "dicts_ok c"
  shows "length (access_times c) = length (cache c)"
proof -
  from assms(2) have "card (set (map fst (cache c))) = length (cache c)"
    "card (set (map fst (access_times c))) = length (access_times c)"
    unfolding dicts_ok_def by (metis distinct_card length_map)+
  with assms(1) show ?thesis by (simp add: keys_agree_def)
qed

lemma distinct_keys_sort:
  "distinct (map fst (sort_key f xs)) = distinct (map fst xs)"
  by (simp add: distinct_map)

lemma evict_lru_filter:
  assumes "access_times c \<noteq> []"
  shows "cache (evict_lru c) = filter (\<lambda>p. fst p \<notin> evicted c) (cache c)"
    and "access_times (evict_lru c) = filter (\<lambda>p. fst p \<notin> evicted c) (access_times c)"
  using assms by (simp_all add: evict_lru_def Let_def evict_loop_filter evicted_def)

lemma evicted_count:
  assumes "keys_agree c" and "dicts_ok c" and "cache c \<noteq> []"
  shows "card (evicted c) = nat (max 1 (int (length (cache c)) div 5))"
    and "evicted c \<subseteq> fst ` set (cache c)"
proof -
  let ?n = "nat (max 1 (int (length (cache c)) div 5))"
  let ?S = "sort_key snd (access_times c)"
  have len: "length ?S = length (cache c)"
    using assms(1,2) by (simp add: same_keys_same_length)
  from assms(3) have "0 < length (cache c)" by simp
  then have n: "?n \<le> length (cache c)" by linarith
  have "distinct (map fst ?S)"
    using assms(2) by (simp add: distinct_keys_sort dicts_ok_def)
  then have "distinct (map fst (take ?n ?S))"
    by (simp add: take_map [symmetric] distinct_take)
  then have "card (evicted c) = length (take ?n ?S)"
    unfolding evicted_def by (metis distinct_card length_map set_map)
  with len n show "card (evicted c) = ?n" by simp
  have "set (take ?n ?S) \<subseteq> set (access_times c)"
    using set_take_subset [of ?n ?S] by simp
  then show "evicted c \<subseteq> fst ` set (cache c)"
    using assms(1) unfolding evicted_def keys_agree_def by blast
qed

lemma evict_lru_length:
  assumes "keys_agree c" and "dicts_ok c" and "cache c \<noteq> []"
  shows "int (length (cache (evict_lru c))) =
         int (length (cache c)) - max 1 (int (length (cache c)) div 5)"
proof -
  from assms have ne: "access_times c \<noteq> []"
    using same_keys_same_length [of c] by auto
  from assms(2) have "distinct (map fst (cache c))" by (simp add: dicts_ok_def)
  from length_filter_keys [OF this evicted_count(2) [OF assms]]
  have "length (cache (evict_lru c)) + card (evicted c) = length (cache c)"
    by (simp add: evict_lru_filter(1) [OF ne])
  with evicted_count(1) [OF assms] show ?thesis by linarith
qed

lemma evicted_are_oldest:
  assumes "dicts_ok c" and "k \<in> evicted c" and "k' \<in> fst ` set (access_times c)"
    and "k' \<notin> evicted c"
    and "map_of (access_times c) k = Some a" and "map_of (access_times c) k' = Some a'"
  shows "a \<le> a'"
proof -
  let ?n = "nat (max 1 (int (length (cache c)) div 5))"
  let ?S = "sort_key snd (access_times c)"
  from assms(1) have d: "distinct (map fst (access_times c))" by (simp add: dicts_ok_def)
  from assms(2) obtain a0 where a0: "(k, a0) \<in> set (take ?n ?S)"
    unfolding evicted_def by auto
  then have "(k, a0) \<in> set (access_times c)"
    using set_take_subset [of ?n ?S] by auto
  with d assms(5) have "a0 = a" by (simp add: map_of_is_SomeI)
  with a0 have t: "a \<in> set (map snd (take ?n ?S))" by force
  from assms(6) have "(k', a') \<in> set ?S" by (simp add: map_of_SomeD)
  then have "(k', a') \<in> set (take ?n ?S) \<union> set (drop ?n ?S)"
    by (metis append_take_drop_id set_append)
  moreover from assms(4) have "(k', a') \<notin> set (take ?n ?S)"
    unfolding evicted_def by force
  ultimately have dr: "a' \<in> set (map snd (drop ?n ?S))" by force
  have "sorted (map snd (take ?n ?S) @ map snd (drop ?n ?S))"
    by (simp add: map_append [symmetric] del: map_append)
  with t dr show ?thesis by (auto simp: sorted_append)
qed

lemma length_update_le: "length (AList.update k v al) \<le> Suc (length al)"
  by (induction al) auto


lemma length_update_present:
  "map_of al k = Some v' \<Longrightarrow> length (AList.update k v al) = length al"
  by (induction al) (auto split: if_splits)

lemma get_params:
  "max_size (snd (get digest c tx s t now)) = max_size c \<and>
   ttl (snd (get digest c tx s t now)) = ttl c"
  by (simp add: get_def Let_def split: option.splits)

lemma get_length_le:
  "length (cache (snd (get digest c tx s t now))) \<le> length (cache c)"
  by (simp add: get_def Let_def length_update_present AList.length_delete_le split: option.splits)

lemma evict_lru_params:
  "max_size (evict_lru c) = max_size c \<and> ttl (evict_lru c) = ttl c \<and>
   hit_count (evict_lru c) = hit_count c \<and> miss_count (evict_lru c) = miss_count c"
  by (simp add: evict_lru_def Let_def evict_loop_params)

lemma evict_lru_length_le: "length (cache (evict_lru c)) \<le> length (cache c)"
  by (simp add: evict_lru_def Let_def evict_loop_filter)

lemma set_cache_params:
  "max_size (set_cache digest c tx s t e now) = max_size c \<and>
   ttl (set_cache digest c tx s t e now) = ttl c"
  by (simp add: set_cache_def Let_def evict_lru_params)

lemma set_cache_length:
  assumes "within_capacity c"
  shows "int (length (cache (set_cache digest c tx s t e now))) \<le> max_size c"
proof (cases "max_size c \<le> int (length (cache c))")
  case True
  from assms have inv: "keys_agree c" "dicts_ok c" "1 \<le> max_size c"
    "int (length (cache c)) \<le> max_size c"
    by (simp_all add: within_capacity_def)
  with True have ne: "cache c \<noteq> []" by auto
  from evict_lru_length [OF inv(1,2) ne] inv(4)
  have "int (length (cache (evict_lru c))) \<le> max_size c - 1" by linarith
  moreover have "length (AList.update (generate_key digest tx s t) e (cache (evict_lru c)))
      \<le> Suc (length (cache (evict_lru c)))"
    by (rule length_update_le)
  ultimately show ?thesis using True by (simp add: set_cache_def Let_def)
next
  case False
  moreover have "length (AList.update (generate_key digest tx s t) e (cache c))
      \<le> Suc (length (cache c))"
    by (rule length_update_le)
  ultimately show ?thesis by (simp add: set_cache_def Let_def)
qed

lemma within_capacity_apply_op:
  assumes "within_capacity c"
  shows "within_capacity (apply_op digest c op)"
proof (cases op)
  case (Get tx s t now)
  with assms get_length_le [of digest c tx s t now] show ?thesis
    by (simp add: within_capacity_def keys_agree_get dicts_ok_get get_params)
next
  case (Set tx s t e now)
  with assms set_cache_length [OF assms, of digest tx s t e now] show ?thesis
    by (simp add: within_capacity_def keys_agree_set_cache dicts_ok_set_cache set_cache_params)
next
  case Evict
  with assms evict_lru_length_le [of c] show ?thesis
    by (simp add: within_capacity_def keys_agree_evict_lru dicts_ok_evict_lru evict_lru_params)
qed

lemma within_capacity_run_ops:
  "within_capacity c \<Longrightarrow> within_capacity (run_ops digest c ops)"
  unfolding run_ops_def
  by (induction ops arbitrary: c) (simp_all add: within_capacity_apply_op)

lemma run_ops_max_size: "max_size (run_ops digest c ops) = max_size c"
  unfolding run_ops_def
proof (induction ops arbitrary: c)
  case Nil
  show ?case by simp
next
  case (Cons op ops)
  have "max_size (apply_op digest c op) = max_size c"
    by (cases op) (simp_all add: get_params set_cache_params evict_lru_params)
  with Cons show ?case by simp
qed

lemma within_capacity_new: "1 \<le> ms \<Longrightarrow> within_capacity (new_cache ms tt)"
  by (simp add: within_capacity_def keys_agree_def dicts_ok_def new_cache_def)

text \<open>
  C3. \<open>set\<close> evicts first whenever the entry count is at or above \<open>max_size\<close>, then
  inserts. On a cache with entries (both dicts with the same keys, each once) eviction
  removes exactly \<open>max 1 (size div 5)\<close> keys, from both dicts, and no removed key was
  accessed later than a key that stays. Hence from an empty cache of capacity
  \<open>max_size \<ge> 1\<close>, after every operation of any sequence of operations (in
  particular of sets with distinct keys), the cache holds at most \<open>max_size\<close> entries.
\<close>

theorem eviction_keeps_cache_bounded:
  "set_cache digest c tx s t e now =
     (let c1 = (if max_size c \<le> int (length (cache c)) then evict_lru c else c);
          key = generate_key digest tx s t
      in c1\<lparr>cache := AList.update key e (cache c1),
            access_times := AList.update key now (access_times c1)\<rparr>) \<and>
   (keys_agree c \<and> dicts_ok c \<and> cache c \<noteq> [] \<longrightarrow>
      cache (evict_lru c) = filter (\<lambda>p. fst p \<notin> evicted c) (cache c) \<and>
      access_times (evict_lru c) = filter (\<lambda>p. fst p \<notin> evicted c) (access_times c) \<and>
      evicted c \<subseteq> fst ` set (cache c) \<and>
      int (card (evicted c)) = max 1 (int (length (cache c)) div 5) \<and>
      int (length (cache (evict_lru c))) =
        int (length (cache c)) - max 1 (int (length (cache c)) div 5) \<and>
      (\<forall>k\<in>evicted c. \<forall>k'\<in>fst ` set (cache (evict_lru c)). \<forall>a a'.
          map_of (access_times c) k = Some a \<and> map_of (access_times c) k' = Some a' \<longrightarrow>
          a \<le> a')) \<and>
   (1 \<le> ms \<longrightarrow>
      int (length (cache (run_ops digest (new_cache ms tt) (take i ops)))) \<le> ms)"
proof (intro conjI impI)
  show "set_cache digest c tx s t e now =
     (let c1 = (if max_size c \<le> int (length (cache c)) then evict_lru c else c);
          key = generate_key digest tx s t
      in c1\<lparr>cache := AList.update key e (cache c1),
            access_times := AList.update key now (access_times c1)\<rparr>)"
    by (simp add: set_cache_def Let_def)
next
  assume "1 \<le> ms"
  then have "within_capacity (run_ops digest (new_cache ms tt) (take i ops))"
    by (intro within_capacity_run_ops within_capacity_new)
  then show "int (length (cache (run_ops digest (new_cache ms tt) (take i ops)))) \<le> ms"
    by (simp add: within_capacity_def run_ops_max_size new_cache_def)
next
  assume h: "keys_agree c \<and> dicts_ok c \<and> cache c \<noteq> []"
  then have k: "keys_agree c" and d: "dicts_ok c" and ne: "cache c \<noteq> []" by simp_all
  from k d ne have ne': "access_times c \<noteq> []"
    using same_keys_same_length [of c] by auto
  show "cache (evict_lru c) = filter (\<lambda>p. fst p \<notin> evicted c) (cache c)"
    by (rule evict_lru_filter(1) [OF ne'])
  show "access_times (evict_lru c) = filter (\<lambda>p. fst p \<notin> evicted c) (access_times c)"
    by (rule evict_lru_filter(2) [OF ne'])
  show "evicted c \<subseteq> fst ` set (cache c)"
    by (rule evicted_count(2) [OF k d ne])
  show "int (card (evicted c)) = max 1 (int (length (cache c)) div 5)"
    using evicted_count(1) [OF k d ne] by simp
  show "int (length (cache (evict_lru c))) =
        int (length (cache c)) - max 1 (int (length (cache c)) div 5)"
    by (rule evict_lru_length [OF k d ne])
  show "\<forall>k\<in>evicted c. \<forall>k'\<in>fst ` set (cache (evict_lru c)). \<forall>a a'.
          map_of (access_times c) k = Some a \<and> map_of (access_times c) k' = Some a' \<longrightarrow>
          a \<le> a'"
  proof (intro ballI allI impI)
    fix x x' a a'
    assume x: "x \<in> evicted c" and x': "x' \<in> fst ` set (cache (evict_lru c))"
      and m: "map_of (access_times c) x = Some a \<and> map_of (access_times c) x' = Some a'"
    from x' have "x' \<notin> evicted c" "x' \<in> fst ` set (cache c)"
      by (auto simp: evict_lru_filter(1) [OF ne'])
    with k have "x' \<in> fst ` set (access_times c)" "x' \<notin> evicted c"
      by (simp_all add: keys_agree_def)
    with d x m show "a \<le> a'" by (intro evicted_are_oldest [of c x x']) auto
  qed
qed

theorem eviction_keeps_cache_bounded_witness:
  "keys_agree sample_full \<and> dicts_ok sample_full \<and> cache sample_full \<noteq> [] \<and>
   evicted sample_full = {''b|en|es''} \<and>
   cache (evict_lru sample_full) = [(''a|en|es'', sample_entry)] \<and>
   int (length (cache (evict_lru sample_full))) = 1 \<and>
   (1::int) \<le> 2 \<and>
   int (length (cache (run_ops (\<lambda>s. s) (new_cache 2 10) (take 3 sample_sets)))) \<le> 2"
proof -
  have h: "keys_agree sample_full \<and> dicts_ok sample_full \<and> cache sample_full \<noteq> []"
    by (simp add: keys_agree_def dicts_ok_def sample_full_def)
  have ev: "evicted sample_full = {''b|en|es''}"
    by (simp add: evicted_def sample_full_def)
  have len: "int (length (cache sample_full)) = 2"
    by (simp add: sample_full_def)
  note th = eviction_keeps_cache_bounded [where c = sample_full and ms = 2 and tt = 10
      and i = 3 and ops = sample_sets and digest = "\<lambda>s. s"]
  from th [THEN conjunct2, THEN conjunct1, rule_format, OF h]
  have e1: "cache (evict_lru sample_full) =
              filter (\<lambda>p. fst p \<notin> evicted sample_full) (cache sample_full)"
    and e2: "int (length (cache (evict_lru sample_full))) =
        int (length (cache sample_full)) - max 1 (int (length (cache sample_full)) div 5)"
    by blast+
  from e1 have r1: "cache (evict_lru sample_full) = [(''a|en|es'', sample_entry)]"
    by (simp add: ev) (simp add: sample_full_def)
  from e2 have r2: "int (length (cache (evict_lru sample_full))) = 1"
    by (simp add: len)
  from th [THEN conjunct2, THEN conjunct2, rule_format]
  have r3: "int (length (cache (run_ops (\<lambda>s. s) (new_cache 2 10) (take 3 sample_sets)))) \<le> 2"
    by simp
  from h ev r1 r2 r3 show ?thesis by simp
qed

section \<open>Validation of the text\<close>

lemma strip_Nil [simp]: "strip [] = []"
  by (simp add: strip_def)

lemma strip_Nil_iff: "strip s = [] \<longleftrightarrow> (\<forall>ch\<in>set s. isspace ch)"
proof -
  have "strip s = [] \<longleftrightarrow> (\<forall>ch\<in>set (dropWhile isspace s). isspace ch)"
    by (simp add: strip_def)
  also have "\<dots> \<longleftrightarrow> dropWhile isspace s = []"
    by (metis dropWhile_eq_Nil_conv dropWhile_idem)
  also have "\<dots> \<longleftrightarrow> (\<forall>ch\<in>set s. isspace ch)"
    by simp
  finally show ?thesis .
qed

lemma translate_body_blank:
  "strip tx = [] \<Longrightarrow>
   translate_body digest model clk s tx tgt source =
     (Inl (ValueError ''Text cannot be empty''), s)"
  by (simp add: translate_body_def)

lemma translate_text_blank:
  "strip tx = [] \<Longrightarrow>
   translate_text digest model clk s tx tgt source =
     (Inl (ValueError ''Text cannot be empty''), s\<lparr>metrics := record_failure (metrics s)\<rparr>)"
  by (simp add: translate_text_def translate_body_blank)

text \<open>
  C6, as the code has it. For every text that is empty or consists of whitespace
  only, \<open>translate_text\<close> raises the validation error without calling the model and
  without reading or writing the cache (the rate limiter is no part of its state);
  the \<open>except\<close> handler counts the failure: \<open>totalRequests\<close> and
  \<open>failedTranslations\<close> rise by one each, \<open>successfulTranslations\<close> and
  \<open>averageResponseTime\<close> stay.
\<close>

theorem blank_text_is_rejected_and_counted:
  "(\<forall>ch\<in>set tx. isspace ch) \<longrightarrow>
     fst (translate_text digest model clk s tx tgt source) =
       Inl (ValueError ''Text cannot be empty'') \<and>
     model_calls (snd (translate_text digest model clk s tx tgt source)) = model_calls s \<and>
     service_cache (snd (translate_text digest model clk s tx tgt source)) = service_cache s \<and>
     totalRequests (metrics (snd (translate_text digest model clk s tx tgt source))) =
       totalRequests (metrics s) + 1 \<and>
     failedTranslations (metrics (snd (translate_text digest model clk s tx tgt source))) =
       failedTranslations (metrics s) + 1 \<and>
     successfulTranslations (metrics (snd (translate_text digest model clk s tx tgt source))) =
       successfulTranslations (metrics s) \<and>
     averageResponseTime (metrics (snd (translate_text digest model clk s tx tgt source))) =
       averageResponseTime (metrics s)"
proof
  assume "\<forall>ch\<in>set tx. isspace ch"
  then have "strip tx = []" by (simp add: strip_Nil_iff)
  then show "fst (translate_text digest model clk s tx tgt source) =
       Inl (ValueError ''Text cannot be empty'') \<and>
     model_calls (snd (translate_text digest model clk s tx tgt source)) = model_calls s \<and>
     service_cache (snd (translate_text digest model clk s tx tgt source)) = service_cache s \<and>
     totalRequests (metrics (snd (translate_text digest model clk s tx tgt source))) =
       totalRequests (metrics s) + 1 \<and>
     failedTranslations (metrics (snd (translate_text digest model clk s tx tgt source))) =
       failedTranslations (metrics s) + 1 \<and>
     successfulTranslations (metrics (snd (translate_text digest model clk s tx tgt source))) =
       successfulTranslations (metrics s) \<and>
     averageResponseTime (metrics (snd (translate_text digest model clk s tx tgt source))) =
       averageResponseTime (metrics s)"
    by (simp add: translate_text_blank record_failure_def)
qed

theorem blank_text_is_rejected_and_counted_witness:
  "list_all isspace ''  '' \<and>
   fst (translate_text (\<lambda>s. s) sample_model sample_clock (new_service True 2 3600) ''  '' ''es''
          (Some ''en'')) = Inl (ValueError ''Text cannot be empty'') \<and>
   totalRequests (metrics (snd (translate_text (\<lambda>s. s) sample_model sample_clock
          (new_service True 2 3600) ''  '' ''es'' (Some ''en'')))) = 1"
proof -
  have h: "\<forall>ch\<in>set ''  ''. isspace ch" by (simp add: isspace_def)
  have m: "totalRequests (metrics (new_service True 2 3600)) = 0"
    by (simp add: new_service_def new_metrics_def)
  from blank_text_is_rejected_and_counted [of "''  ''" "\<lambda>s. s" sample_model sample_clock
      "new_service True 2 3600" "''es''" "Some ''en''"] h m
  show ?thesis by (simp add: list_all_iff)
qed

text \<open>
  The claim that no counter changes fails: on a fresh service the empty text leaves
  \<open>totalRequests = 1\<close> and \<open>failedTranslations = 1\<close>.
\<close>

theorem blank_text_changes_metrics:
  "totalRequests (metrics (snd (translate_text (\<lambda>s. s) sample_model sample_clock
       (new_service True 2 3600) '''' ''es'' (Some ''en'')))) \<noteq>
     totalRequests (metrics (new_service True 2 3600)) \<and>
   failedTranslations (metrics (snd (translate_text (\<lambda>s. s) sample_model sample_clock
       (new_service True 2 3600) '''' ''es'' (Some ''en'')))) \<noteq>
     failedTranslations (metrics (new_service True 2 3600))"
  by (simp add: translate_text_blank record_failure_def new_service_def new_metrics_def)

section \<open>Failure of the model\<close>

lemma cache_lookup_frame:
  "metrics (snd (cache_lookup digest clk s tx src tgt)) = metrics s \<and>
   model_calls (snd (cache_lookup digest clk s tx src tgt)) = model_calls s \<and>
   ENABLE_CACHING (snd (cache_lookup digest clk s tx src tgt)) = ENABLE_CACHING s"
  by (simp add: cache_lookup_def split: option.splits prod.splits)

lemma cache_lookup_enabled:
  "service_cache s = Some c \<Longrightarrow> ENABLE_CACHING s \<Longrightarrow>
   cache_lookup digest clk s tx src tgt =
     (fst (get digest c tx src tgt (utcnow_get clk)),
      s\<lparr>service_cache := Some (snd (get digest c tx src tgt (utcnow_get clk)))\<rparr>)"
  by (simp add: cache_lookup_def case_prod_beta)

lemma cache_lookup_disabled:
  "service_cache s = None \<or> \<not> ENABLE_CACHING s \<Longrightarrow>
   cache_lookup digest clk s tx src tgt = (Inr None, s)"
  by (auto simp: cache_lookup_def split: option.splits)

lemma cached_entries_frame [simp]:
  "cached_entries (s\<lparr>model_calls := calls\<rparr>) = cached_entries s"
  "cached_entries (s\<lparr>metrics := m\<rparr>) = cached_entries s"
  by (simp_all add: cached_entries_def)

lemma get_miss_entries:
  "fst (get digest c tx src tgt now) = Inr None \<Longrightarrow>
   set (cache (snd (get digest c tx src tgt now))) \<subseteq> set (cache c)"
  by (auto simp: get_def Let_def delete_filter split: option.splits if_splits)

lemma cache_lookup_miss_entries:
  assumes "fst (cache_lookup digest clk s tx src tgt) = Inr None"
  shows "cached_entries (snd (cache_lookup digest clk s tx src tgt)) \<subseteq> cached_entries s"
proof (cases "service_cache s")
  case None
  then show ?thesis by (simp add: cache_lookup_disabled)
next
  case (Some c)
  show ?thesis
  proof (cases "ENABLE_CACHING s")
    case False
    then show ?thesis by (simp add: cache_lookup_disabled)
  next
    case True
    with Some assms have "fst (get digest c tx src tgt (utcnow_get clk)) = Inr None"
      by (simp add: cache_lookup_enabled)
    then have "set (cache (snd (get digest c tx src tgt (utcnow_get clk)))) \<subseteq> set (cache c)"
      by (rule get_miss_entries)
    with Some True show ?thesis
      by (simp add: cache_lookup_enabled cached_entries_def)
  qed
qed

lemma translate_body_model_error:
  assumes "strip tx \<noteq> []"
    and "resolve_source (strip tx) source = (source_nllb, src)"
    and "fst (cache_lookup digest clk s (strip tx) src tgt) = Inr None"
    and "src \<noteq> tgt"
    and "model (strip tx) source_nllb (get_nllb_language_code tgt) = Inl e"
  shows "translate_body digest model clk s tx tgt source =
     (Inl e, (snd (cache_lookup digest clk s (strip tx) src tgt))
        \<lparr>model_calls := model_calls (snd (cache_lookup digest clk s (strip tx) src tgt)) @
           [(strip tx, source_nllb, get_nllb_language_code tgt)]\<rparr>)"
proof -
  from assms(1) have ne: "tx \<noteq> []" by auto
  obtain r s1 where l: "cache_lookup digest clk s (strip tx) src tgt = (r, s1)"
    by (cases "cache_lookup digest clk s (strip tx) src tgt")
  with assms(3) have r: "r = Inr None" by simp
  show ?thesis
    using assms(1,2,4,5) ne
    by (simp add: translate_body_def Let_def l r perform_translation_def)
qed

text \<open>
  C9. A request reaches the compute step when its text is not blank, the lookup
  yields nothing (a miss, or caching is off) and the source tag differs from the
  target tag. If the model then raises an error, \<open>translate_text\<close> raises the same
  error; \<open>totalRequests\<close> and \<open>failedTranslations\<close> rise by one each,
  \<open>successfulTranslations\<close> and \<open>averageResponseTime\<close> stay; the cache is the one the
  lookup left, so no entry is written; and the model has been called exactly once.
\<close>

theorem model_error_is_counted_and_raised:
  assumes "strip tx \<noteq> []"
    and "resolve_source (strip tx) source = (source_nllb, src)"
    and "fst (cache_lookup digest clk s (strip tx) src tgt) = Inr None"
    and "src \<noteq> tgt"
    and "model (strip tx) source_nllb (get_nllb_language_code tgt) = Inl e"
  shows
    "fst (translate_text digest model clk s tx tgt source) = Inl e \<and>
     totalRequests (metrics (snd (translate_text digest model clk s tx tgt source))) =
       totalRequests (metrics s) + 1 \<and>
     failedTranslations (metrics (snd (translate_text digest model clk s tx tgt source))) =
       failedTranslations (metrics s) + 1 \<and>
     successfulTranslations (metrics (snd (translate_text digest model clk s tx tgt source))) =
       successfulTranslations (metrics s) \<and>
     averageResponseTime (metrics (snd (translate_text digest model clk s tx tgt source))) =
       averageResponseTime (metrics s) \<and>
     service_cache (snd (translate_text digest model clk s tx tgt source)) =
       service_cache (snd (cache_lookup digest clk s (strip tx) src tgt)) \<and>
     cached_entries (snd (translate_text digest model clk s tx tgt source)) \<subseteq> cached_entries s \<and>
     model_calls (snd (translate_text digest model clk s tx tgt source)) =
       model_calls s @ [(strip tx, source_nllb, get_nllb_language_code tgt)]"
proof -
  let ?s1 = "snd (cache_lookup digest clk s (strip tx) src tgt)"
  have t: "translate_text digest model clk s tx tgt source =
     (Inl e, ?s1\<lparr>model_calls := model_calls ?s1 @
                     [(strip tx, source_nllb, get_nllb_language_code tgt)],
                 metrics := record_failure (metrics ?s1)\<rparr>)"
    using assms(5)
    by (simp add: translate_text_def
        translate_body_model_error [of tx source source_nllb src digest clk s tgt model e, OF assms(1-4)])
  from cache_lookup_miss_entries [OF assms(3)] show ?thesis
    unfolding t by (simp add: cache_lookup_frame record_failure_def)
qed

theorem model_error_is_counted_and_raised_witness:
  "strip ''Hello'' \<noteq> [] \<and>
   resolve_source (strip ''Hello'') (Some ''en'') = (''eng_Latn'', ''en'') \<and>
   fst (cache_lookup (\<lambda>s. s) sample_clock sample_service (strip ''Hello'') ''en'' ''es'') = Inr None \<and>
   ''en'' \<noteq> ''es'' \<and>
   failing_model (strip ''Hello'') ''eng_Latn'' (get_nllb_language_code ''es'') =
     Inl (ModelError ''out of memory'') \<and>
   fst (translate_text (\<lambda>s. s) failing_model sample_clock sample_service ''Hello'' ''es''
          (Some ''en'')) = Inl (ModelError ''out of memory'') \<and>
   totalRequests (metrics (snd (translate_text (\<lambda>s. s) failing_model sample_clock
          sample_service ''Hello'' ''es'' (Some ''en'')))) = 1 \<and>
   model_calls (snd (translate_text (\<lambda>s. s) failing_model sample_clock
          sample_service ''Hello'' ''es'' (Some ''en''))) = [(''Hello'', ''eng_Latn'', ''spa_Latn'')]"
proof -
  have st: "strip ''Hello'' = ''Hello''" by (simp add: strip_def isspace_def)
  have h1: "strip ''Hello'' \<noteq> []" by (simp add: st)
  have nl: "get_nllb_language_code ''en'' = ''eng_Latn''" "get_nllb_language_code ''es'' = ''spa_Latn''"
    by (simp_all add: get_nllb_language_code_def NLLB_LANGUAGE_MAPPING_def)
  have h2: "resolve_source (strip ''Hello'') (Some ''en'') = (''eng_Latn'', ''en'')"
    by (simp add: resolve_source_def nl)
  have h3: "fst (cache_lookup (\<lambda>s. s) sample_clock sample_service (strip ''Hello'') ''en'' ''es'') = Inr None"
    by (simp add: cache_lookup_def sample_service_def new_service_def new_cache_def get_def Let_def)
  have h4: "''en'' \<noteq> ''es''" by simp
  have h5: "failing_model (strip ''Hello'') ''eng_Latn'' (get_nllb_language_code ''es'') =
     Inl (ModelError ''out of memory'')" by (simp add: failing_model_def)
  have m: "totalRequests (metrics sample_service) = 0" "model_calls sample_service = []"
    by (simp_all add: sample_service_def new_service_def new_metrics_def)
  from model_error_is_counted_and_raised [of "''Hello''" "Some ''en''" "''eng_Latn''" "''en''"
      "\<lambda>s. s" sample_clock sample_service "''es''" failing_model "ModelError ''out of memory''",
      OF h1 h2 h3 h4 h5] h1 h2 h3 h5 m st nl
  show ?thesis by simp
qed

section \<open>Results stored and found again\<close>

























section \<open>The tags in the cache key\<close>







end
